theory Spec2Isabelle
  imports Main "HOL-Library.Mapping" "HOL-Library.AList_Mapping" "HOL-Library.Word"
begin

section \<open>Constants of gen-similar-text.cpp\<close>

definition kSoftLexLimit :: int where
  "kSoftLexLimit = 500"

definition kStartingLex :: string where
  "kStartingLex = ''.''"

definition kTerminatorLex :: string where
  "kTerminatorLex = kStartingLex"

text \<open>
  The ways a run leaves the normal path. \<open>LookupError\<close> is the \<^verbatim>\<open>ERR\<close> macro of
  \<^verbatim>\<open>Distr::nextLex\<close> (a message, then \<^verbatim>\<open>abort ()\<close>). The others are the undefined
  behaviours the source can reach: reading through an end-of-sequence
  \<^verbatim>\<open>sregex_token_iterator\<close>, a \<^verbatim>\<open>uniform_int_distribution\<close> built with \<open>a > b\<close>,
  a vector read out of range, and overflow of the \<^verbatim>\<open>int\<close> step counter.
\<close>

datatype fault =
    LookupError
  | EndIteratorDeref
  | InvalidDistributionRange
  | IndexOutOfRange
  | SignedOverflow

section \<open>Character classes of the classic locale\<close>

definition isalnum_c :: "char \<Rightarrow> bool" where
  "isalnum_c c =
     (let n = (of_char c :: nat)
      in (48 \<le> n \<and> n \<le> 57) \<or> (65 \<le> n \<and> n \<le> 90) \<or> (97 \<le> n \<and> n \<le> 122))"

definition ispunct_c :: "char \<Rightarrow> bool" where
  "ispunct_c c =
     (let n = (of_char c :: nat)
      in (33 \<le> n \<and> n \<le> 47) \<or> (58 \<le> n \<and> n \<le> 64) \<or>
         (91 \<le> n \<and> n \<le> 96) \<or> (123 \<le> n \<and> n \<le> 126))"

definition isspace_c :: "char \<Rightarrow> bool" where
  "isspace_c c = (let n = (of_char c :: nat) in n = 32 \<or> (9 \<le> n \<and> n \<le> 13))"

text \<open>The regex class \<^verbatim>\<open>[[:w:]]\<close>: alphanumeric or underscore.\<close>

definition is_w :: "char \<Rightarrow> bool" where
  "is_w c = (isalnum_c c \<or> c = CHR ''_'')"

section \<open>The lexer: chunks and lexemes\<close>

text \<open>
  \<^verbatim>\<open>lexRx\<close> tried at the start of a string: the matched prefix, if any. The four
  alternatives are tried in the order of the pattern, each greedy:
  \<^verbatim>\<open>([[:w:]]+[-'][[:w:]]+)|([[:w:]]+)|([.]{3})|([[:punct:]])\<close>.
\<close>

definition match_lex :: "string \<Rightarrow> string option" where
  "match_lex s =
     (let w = takeWhile is_w s; r = dropWhile is_w s
      in if w \<noteq> [] then
           (case r of
              [] \<Rightarrow> Some w
            | c # r' \<Rightarrow>
                if (c = CHR ''-'' \<or> c = CHR 0x27) \<and> takeWhile is_w r' \<noteq> []
                then Some (w @ c # takeWhile is_w r')
                else Some w)
         else if take 3 s = ''...'' then Some ''...''
         else (case s of
                 [] \<Rightarrow> None
               | c # _ \<Rightarrow> if ispunct_c c then Some [c] else None))"

text \<open>
  All matches of \<^verbatim>\<open>lexRx\<close> in a chunk, left to right without overlap, as
  \<^verbatim>\<open>std::sregex_token_iterator\<close> yields them: the search resumes where the last match
  ended, and a character that starts no match is skipped. The first argument counts the
  characters of the current match still to be passed over.
\<close>

fun tokens_from :: "nat \<Rightarrow> string \<Rightarrow> string list" where
  "tokens_from k [] = []"
| "tokens_from (Suc k) (c # s) = tokens_from k s"
| "tokens_from 0 (c # s) =
     (case match_lex (c # s) of
        None \<Rightarrow> tokens_from 0 s
      | Some m \<Rightarrow> m # tokens_from (length m - 1) s)"

definition tokens :: "string \<Rightarrow> string list" where
  "tokens chunk = tokens_from 0 chunk"

text \<open>
  \<^verbatim>\<open>while (in >> chunk)\<close>: the maximal runs of non-whitespace characters of the input.
  The first argument is the chunk read so far.
\<close>

fun chunks_from :: "string \<Rightarrow> string \<Rightarrow> string list" where
  "chunks_from cur [] = (if cur = [] then [] else [cur])"
| "chunks_from cur (c # s) =
     (if isspace_c c then (if cur = [] then chunks_from [] s else cur # chunks_from [] s)
      else chunks_from (cur @ [c]) s)"

definition chunks :: "string \<Rightarrow> string list" where
  "chunks text = chunks_from [] text"

text \<open>The lexemes of a whole text, in input order.\<close>

definition lexemes :: "string \<Rightarrow> string list" where
  "lexemes text = concat (map tokens (chunks text))"

section \<open>class Distr\<close>

text \<open>
  \<^verbatim>\<open>m_model\<close> maps each lexeme to the vector of pointers to its observed successors. A
  pointer into the map's keys is modelled by the key it points to: keys are never erased
  or changed, so the pointer always reads that string. \<^verbatim>\<open>m_uniform_sitribution_states\<close>
  maps an \<^verbatim>\<open>int\<close> key to a distribution object, modelled by its parameters \<open>(a, b)\<close>.
  \<^verbatim>\<open>m_gen\<close> is the state of the random engine, of an arbitrary type.
\<close>

record 'g Distr =
  m_model :: "(string, string list) mapping"
  m_uniform_sitribution_states :: "(int, int \<times> int) mapping"
  m_gen :: 'g

definition Distr_init :: "'g \<Rightarrow> 'g Distr" where
  "Distr_init g = \<lparr>m_model = Mapping.empty, m_uniform_sitribution_states = Mapping.empty, m_gen = g\<rparr>"

definition uniqueLexCount :: "'g Distr \<Rightarrow> nat" where
  "uniqueLexCount d = Mapping.size (m_model d)"

text \<open>
  \<^verbatim>\<open>try_emplace(k)\<close> and \<^verbatim>\<open>operator[]\<close> of the model map: the value stored under \<open>k\<close>
  and the map, where a missing key is first inserted with an empty vector.
\<close>

definition emplace_lex :: "string \<Rightarrow> (string, string list) mapping \<Rightarrow> string list \<times> (string, string list) mapping" where
  "emplace_lex k m =
     (case Mapping.lookup m k of None \<Rightarrow> ([], Mapping.update k [] m) | Some v \<Rightarrow> (v, m))"

definition add :: "string \<Rightarrow> string \<Rightarrow> 'g Distr \<Rightarrow> string \<times> 'g Distr" where
  "add curLex nextLexStr d =
     (let (_, m1) = emplace_lex nextLexStr (m_model d);
          (v, m2) = emplace_lex curLex m1
      in (nextLexStr, d\<lparr>m_model := Mapping.update curLex (v @ [nextLexStr]) m2\<rparr>))"

text \<open>
  Conversion of a \<^verbatim>\<open>size_t\<close> value to the 32-bit \<^verbatim>\<open>int\<close>: the value modulo \<open>2 ^ 32\<close>,
  read as two's complement.
\<close>

definition to_int :: "nat \<Rightarrow> int" where
  "to_int n = sint (word_of_nat n :: 32 word)"

text \<open>
  \<^verbatim>\<open>m_uniform_sitribution_states.try_emplace(size - 1, 0, size - 1).first->second\<close>:
  the distribution object used for a vector of \<open>sz\<close> elements, and the cache after the
  call. The key and the upper bound are both \<open>sz - 1\<close> converted to \<^verbatim>\<open>int\<close>; an object
  already cached under the key is used as it is.
\<close>

definition distribution_for :: "nat \<Rightarrow> (int, int \<times> int) mapping \<Rightarrow> (int \<times> int) \<times> (int, int \<times> int) mapping" where
  "distribution_for sz st =
     (let k = to_int (sz - 1)
      in case Mapping.lookup st k of
           None \<Rightarrow> ((0, k), Mapping.update k (0, k) st)
         | Some p \<Rightarrow> (p, st))"

text \<open>
  \<^verbatim>\<open>Distr::nextLex\<close>. The argument \<open>draw\<close> stands for drawing from a distribution object
  with the shared engine: \<open>draw a b g\<close> is the number drawn from
  \<^verbatim>\<open>uniform_int_distribution (a, b)\<close> with the engine in state \<open>g\<close>, and the engine's next
  state. The result is the outcome of the call and the object's state when the call
  returns or aborts. \<^verbatim>\<open>m_model[curLex]\<close> inserts an empty vector for a missing key, as
  \<^verbatim>\<open>operator[]\<close> does. A distribution object with its lower bound above its upper bound
  and an index outside the vector are undefined behaviour in the source, and faults
  here.
\<close>

definition nextLex :: "(int \<Rightarrow> int \<Rightarrow> 'g \<Rightarrow> int \<times> 'g) \<Rightarrow> string \<Rightarrow> 'g Distr \<Rightarrow> (fault + string) \<times> 'g Distr" where
  "nextLex draw curLex d =
     (let (distrData, m) = emplace_lex curLex (m_model d);
          sz = length distrData;
          d1 = d\<lparr>m_model := m\<rparr>
      in if sz = 0 then (Inl LookupError, d1)
         else
           (let (p, st) = distribution_for sz (m_uniform_sitribution_states d1);
                d2 = d1\<lparr>m_uniform_sitribution_states := st\<rparr>
            in if snd p < fst p then (Inl InvalidDistributionRange, d2)
               else
                 (let (idx, g) = draw (fst p) (snd p) (m_gen d2);
                      d3 = d2\<lparr>m_gen := g\<rparr>
                  in if idx < 0 \<or> int sz \<le> idx then (Inl IndexOutOfRange, d3)
                     else (Inr (distrData ! nat idx), d3))))"

section \<open>main: reading the input\<close>

text \<open>What \<^verbatim>\<open>OUT\<close> writes: a lexeme, the separating space, or the final line end.\<close>

datatype out_item = Lexeme string | Space | EndLine

text \<open>
  The local variables of \<^verbatim>\<open>main\<close>. A pointer to a key of the model is the key, and
  \<^verbatim>\<open>nullptr\<close> is \<open>None\<close>. \<open>lex\<close>, \<open>i\<close> and \<open>out\<close> are used by the generation
  phase only; \<open>out\<close> is what has been written with \<^verbatim>\<open>OUT\<close>.
\<close>

record 'g main_state =
  prevChunkLastLexStrPtr :: "string option"
  lastLexStrPtr :: "string option"
  distr :: "'g Distr"
  lex :: string
  i :: int
  out :: "out_item list"

definition main_init :: "'g \<Rightarrow> 'g main_state" where
  "main_init g =
     \<lparr>prevChunkLastLexStrPtr = None, lastLexStrPtr = None, distr = Distr_init g,
      lex = [], i = 0, out = []\<rparr>"

text \<open>
  The inner \<^verbatim>\<open>for\<close> loop over the lexemes of one chunk. \<open>prevIt\<close> is the lexeme the
  iterator \<^verbatim>\<open>prevIt\<close> stands on (\<open>None\<close> for the end iterator), the list holds the
  lexemes from \<^verbatim>\<open>it\<close> on. The loop has no test before its body: with no lexeme left at
  entry, \<^verbatim>\<open>*it\<close> reads through the end iterator.
\<close>

fun chunk_loop :: "string option \<Rightarrow> string list \<Rightarrow> 'g main_state \<Rightarrow> fault + 'g main_state" where
  "chunk_loop prevIt [] s = Inl EndIteratorDeref"
| "chunk_loop prevIt (t # rest) s =
     (let curLex =
            (case prevChunkLastLexStrPtr s of
               Some p \<Rightarrow> p
             | None \<Rightarrow> (case prevIt of None \<Rightarrow> kStartingLex | Some q \<Rightarrow> q));
          (ptr, d) = add curLex t (distr s);
          s1 = s\<lparr>lastLexStrPtr := Some ptr, distr := d\<rparr>
      in if rest = [] then Inr (s1\<lparr>prevChunkLastLexStrPtr := lastLexStrPtr s1\<rparr>)
         else chunk_loop (Some t) rest (s1\<lparr>prevChunkLastLexStrPtr := None\<rparr>))"

text \<open>The outer \<^verbatim>\<open>while (in >> chunk)\<close> loop.\<close>

fun main_parse :: "string list \<Rightarrow> 'g main_state \<Rightarrow> fault + 'g main_state" where
  "main_parse [] s = Inr s"
| "main_parse (chunk # rest) s =
     (case chunk_loop None (tokens chunk) s of
        Inl e \<Rightarrow> Inl e
      | Inr s' \<Rightarrow> main_parse rest s')"

definition build_model :: "'g \<Rightarrow> string \<Rightarrow> fault + 'g main_state" where
  "build_model g text = main_parse (chunks text) (main_init g)"

section \<open>main: generation\<close>

text \<open>\<^verbatim>\<open>regex_search (lex, "^(([.]{3})|[[:punct:]])$")\<close>.\<close>

definition is_punctation :: "string \<Rightarrow> bool" where
  "is_punctation lx = (lx = ''...'' \<or> (case lx of [c] \<Rightarrow> ispunct_c c | _ \<Rightarrow> False))"

datatype status = Running | Finished | NoParsableData | Aborted fault

text \<open>
  One pass through the body of \<^verbatim>\<open>while (true)\<close>, with the soft limit as a parameter.
  The state returned with \<open>Aborted\<close> is the state at the abort.
\<close>

definition gen_step :: "int \<Rightarrow> (int \<Rightarrow> int \<Rightarrow> 'g \<Rightarrow> int \<times> 'g) \<Rightarrow> 'g main_state \<Rightarrow> status \<times> 'g main_state" where
  "gen_step limit draw s =
     (let s1 = s\<lparr>out := out s @ [Lexeme (lex s)]\<rparr>;
          (r, d) = nextLex draw (lex s1) (distr s1);
          s2 = s1\<lparr>distr := d\<rparr>
      in case r of
           Inl e \<Rightarrow> (Aborted e, s2)
         | Inr l \<Rightarrow>
             (let s3 = s2\<lparr>lex := l\<rparr>;
                  s4 = (if \<not> is_punctation (lex s3) then s3\<lparr>out := out s3 @ [Space]\<rparr> else s3)
              in if i s4 = 2147483647 then (Aborted SignedOverflow, s4)
                 else
                   (let s5 = s4\<lparr>i := i s4 + 1\<rparr>
                    in if limit < i s5 \<and> lex s5 = kTerminatorLex
                       then
                         (let s6 = s5\<lparr>out := out s5 @ [Lexeme (lex s5), EndLine]\<rparr>
                          in if i s6 = 2147483647 then (Aborted SignedOverflow, s6)
                             else (Finished, s6\<lparr>i := i s6 + 1\<rparr>))
                       else (Running, s5))))"

text \<open>
  The loop \<^verbatim>\<open>while (true)\<close>. It need not end: the value is \<open>None\<close> when it runs
  forever, and otherwise the status it ended with and the state then.
\<close>

partial_function (option) gen_loop :: "int \<Rightarrow> (int \<Rightarrow> int \<Rightarrow> 'g \<Rightarrow> int \<times> 'g) \<Rightarrow> 'g main_state \<Rightarrow> (status \<times> 'g main_state) option" where
  "gen_loop limit draw s =
     (let r = gen_step limit draw s
      in if fst r = Running then gen_loop limit draw (snd r) else Some r)"

declare gen_loop.simps [code]

text \<open>The part of \<^verbatim>\<open>main\<close> after the input loop.\<close>

definition main_generate :: "int \<Rightarrow> (int \<Rightarrow> int \<Rightarrow> 'g \<Rightarrow> int \<times> 'g) \<Rightarrow> 'g main_state \<Rightarrow> (status \<times> 'g main_state) option" where
  "main_generate limit draw s =
     (if uniqueLexCount (distr s) = 0 then Some (NoParsableData, s)
      else
        (let (r, d) = nextLex draw kStartingLex (distr s);
             s1 = s\<lparr>distr := d\<rparr>
         in case r of
              Inl e \<Rightarrow> Some (Aborted e, s1)
            | Inr l \<Rightarrow> gen_loop limit draw (s1\<lparr>lex := l, i := 0\<rparr>)))"

text \<open>
  \<^verbatim>\<open>main\<close> on the contents of the input file, with the engine seeded to \<open>g\<close>. A fault
  while the input is read ends the run; otherwise the run is the generation phase with
  \<^verbatim>\<open>kSoftLexLimit\<close>.
\<close>

definition main :: "(int \<Rightarrow> int \<Rightarrow> 'g \<Rightarrow> int \<times> 'g) \<Rightarrow> 'g \<Rightarrow> string \<Rightarrow> fault + (status \<times> 'g main_state) option" where
  "main draw g text =
     (case build_model g text of
        Inl e \<Rightarrow> Inl e
      | Inr s \<Rightarrow> Inr (main_generate kSoftLexLimit draw s))"

section \<open>Notions used in the statements\<close>

text \<open>
  A sequence of calls of \<^verbatim>\<open>add\<close>, given by their arguments, in order.
\<close>

fun add_all :: "(string \<times> string) list \<Rightarrow> 'g Distr \<Rightarrow> 'g Distr" where
  "add_all [] d = d"
| "add_all ((c, n) # ps) d = add_all ps (snd (add c n d))"

text \<open>
  The successor vector stored for a lexeme; empty when the lexeme has no entry.
\<close>

definition stored :: "(string, string list) mapping \<Rightarrow> string \<Rightarrow> string list" where
  "stored m k = (case Mapping.lookup m k of None \<Rightarrow> [] | Some v \<Rightarrow> v)"

text \<open>
  The predecessor that the first pass through the body of the inner loop hands to \<^verbatim>\<open>add\<close>.
\<close>

definition first_pred :: "string option \<Rightarrow> 'g main_state \<Rightarrow> string" where
  "first_pred prevIt s =
     (case prevChunkLastLexStrPtr s of
        Some p \<Rightarrow> p
      | None \<Rightarrow> (case prevIt of None \<Rightarrow> kStartingLex | Some q \<Rightarrow> q))"

text \<open>
  Each lexeme of a list paired with the lexeme before it, the first one with \<open>p\<close>.
\<close>

definition link_pairs :: "string \<Rightarrow> string list \<Rightarrow> (string \<times> string) list" where
  "link_pairs p ls = zip (p # butlast ls) ls"

text \<open>
  The predecessor the next chunk starts with.
\<close>

definition pred0 :: "'g main_state \<Rightarrow> string" where
  "pred0 s = (case prevChunkLastLexStrPtr s of Some p \<Rightarrow> p | None \<Rightarrow> kStartingLex)"

text \<open>
  The count that the specification gives for \<^verbatim>\<open>uniqueLexemeCount\<close>: the number of distinct
  lexemes, plus one for the sentinel if it is not among them.
\<close>

definition spec_unique_count :: "string list \<Rightarrow> nat" where
  "spec_unique_count ls = card (set ls) + (if kStartingLex \<in> set ls then 0 else 1)"

text \<open>
  Every cached distribution object has the parameters it was built with under its key:
  lower bound 0 and the key as upper bound.
\<close>

definition cache_ok :: "(int, int \<times> int) mapping \<Rightarrow> bool" where
  "cache_ok st = (\<forall>k \<in> Mapping.keys st. Mapping.lookup st k = Some (0, k))"


text \<open>
  An engine for concrete runs: every draw yields the lower bound.
\<close>

definition first_index :: "int \<Rightarrow> int \<Rightarrow> unit \<Rightarrow> int \<times> unit" where
  "first_index a b g = (a, g)"


text \<open>
  What is written between an emitted lexeme and the lexeme \<open>l\<close> drawn after it.
\<close>

definition separator :: "string \<Rightarrow> out_item list" where
  "separator l = (if is_punctation l then [] else [Space])"



text \<open>
  A state of \<^verbatim>\<open>main\<close> whose model holds the given pairs, for concrete runs of the
  generation phase.
\<close>

definition built_from :: "(string \<times> string) list \<Rightarrow> unit main_state" where
  "built_from ps = (main_init ())\<lparr>distr := add_all ps (Distr_init ())\<rparr>"

text \<open>
  The pairs of the text \<^verbatim>\<open>Hello, world.\<close>
\<close>

definition hello_pairs :: "(string \<times> string) list" where
  "hello_pairs = [(''.'', ''Hello''), (''Hello'', '',''), ('','', ''world''), (''world'', ''.'')]"

section \<open>Facts about the model map\<close>

lemma fst_emplace_lex: "fst (emplace_lex k m) = stored m k"
  by (simp add: emplace_lex_def stored_def split: option.split)

lemma lookup_emplace_lex:
  "Mapping.lookup (snd (emplace_lex k m)) k' =
     (if k' = k then Some (stored m k) else Mapping.lookup m k')"
  by (auto simp: emplace_lex_def stored_def Mapping.lookup_update' split: option.split)

lemma emplace_lex_present:
  "Mapping.lookup m k = Some v \<Longrightarrow> emplace_lex k m = (v, m)"
  by (simp add: emplace_lex_def)

lemma emplace_lex_absent:
  "Mapping.lookup m k = None \<Longrightarrow> emplace_lex k m = ([], Mapping.update k [] m)"
  by (simp add: emplace_lex_def)

lemma fst_add: "fst (add c n d) = n"
  by (simp add: add_def split: prod.split)

lemma lookup_add:
  "Mapping.lookup (m_model (snd (add c n d))) k =
     (if k = c then Some (stored (m_model d) c @ [n])
      else if k = n then Some (stored (m_model d) n)
      else Mapping.lookup (m_model d) k)"
proof -
  obtain v1 m1 where e1: "emplace_lex n (m_model d) = (v1, m1)"
    by (cases "emplace_lex n (m_model d)")
  obtain v2 m2 where e2: "emplace_lex c m1 = (v2, m2)"
    by (cases "emplace_lex c m1")
  have l1: "\<And>k'. Mapping.lookup m1 k' =
      (if k' = n then Some (stored (m_model d) n) else Mapping.lookup (m_model d) k')"
    using lookup_emplace_lex [of n "m_model d"] e1 by simp
  have v2: "v2 = stored m1 c"
    using fst_emplace_lex [of c m1] e2 by simp
  have l2: "\<And>k'. Mapping.lookup m2 k' =
      (if k' = c then Some (stored m1 c) else Mapping.lookup m1 k')"
    using lookup_emplace_lex [of c m1] e2 by simp
  have s1: "stored m1 c = stored (m_model d) c"
    by (simp add: stored_def l1)
  show ?thesis
    by (simp add: add_def e1 e2 v2 s1 l2 l1 Mapping.lookup_update')
qed

lemma add_keeps_cache:
  "m_uniform_sitribution_states (snd (add c n d)) = m_uniform_sitribution_states d"
  by (simp add: add_def split: prod.split)

lemma add_keeps_gen: "m_gen (snd (add c n d)) = m_gen d"
  by (simp add: add_def split: prod.split)

lemma keys_add:
  "Mapping.keys (m_model (snd (add c n d))) = insert c (insert n (Mapping.keys (m_model d)))"
  by (auto simp: Mapping.keys_dom_lookup lookup_add dom_def)

lemma add_all_append: "add_all (ps @ qs) d = add_all qs (add_all ps d)"
  by (induction ps arbitrary: d) auto

lemma keys_add_all:
  "Mapping.keys (m_model (add_all ps d)) =
     Mapping.keys (m_model d) \<union> fst ` set ps \<union> snd ` set ps"
proof (induction ps arbitrary: d)
  case Nil
  then show ?case by simp
next
  case (Cons p ps)
  obtain c n where p: "p = (c, n)" by (cases p)
  have "Mapping.keys (m_model (add_all (p # ps) d)) =
          insert c (insert n (Mapping.keys (m_model d))) \<union> fst ` set ps \<union> snd ` set ps"
    by (simp add: p Cons.IH keys_add)
  also have "\<dots> = Mapping.keys (m_model d) \<union> fst ` set (p # ps) \<union> snd ` set (p # ps)"
    by (simp add: p) blast
  finally show ?case .
qed

lemma add_extends:
  "Mapping.lookup (m_model d) k = Some v \<Longrightarrow>
   \<exists>v'. Mapping.lookup (m_model (snd (add c n d))) k = Some (v @ v')"
  by (auto simp: lookup_add stored_def)

lemma add_all_extends:
  "Mapping.lookup (m_model d) k = Some v \<Longrightarrow>
   \<exists>v'. Mapping.lookup (m_model (add_all ps d)) k = Some (v @ v')"
proof (induction ps arbitrary: d v)
  case Nil
  then show ?case by simp
next
  case (Cons p ps)
  obtain c n where p: "p = (c, n)" by (cases p)
  from add_extends [OF Cons.prems, of c n]
  obtain v1 where v1: "Mapping.lookup (m_model (snd (add c n d))) k = Some (v @ v1)" by blast
  from Cons.IH [OF v1] obtain v2 where
    "Mapping.lookup (m_model (add_all ps (snd (add c n d)))) k = Some ((v @ v1) @ v2)" by blast
  then show ?case by (auto simp: p)
qed


section \<open>The model only grows\<close>

text \<open>
  Claim C7. After any sequence of calls \<^verbatim>\<open>add (predecessor, successor)\<close>, started in any
  state of the model, every lexeme that was passed as a predecessor or as a successor is
  a key of the model. No call removes anything: every key the model had is still a key,
  and the vector stored under it is the old vector with, possibly, new elements appended.
\<close>

theorem add_only_grows:
  "(\<forall>(c, n) \<in> set ps.
      c \<in> Mapping.keys (m_model (add_all ps d)) \<and> n \<in> Mapping.keys (m_model (add_all ps d))) \<and>
   (\<forall>k v. Mapping.lookup (m_model d) k = Some v \<longrightarrow>
      (\<exists>v'. Mapping.lookup (m_model (add_all ps d)) k = Some (v @ v'))) \<and>
   Mapping.keys (m_model d) \<subseteq> Mapping.keys (m_model (add_all ps d))"
proof (intro conjI)
  show "\<forall>(c, n) \<in> set ps.
      c \<in> Mapping.keys (m_model (add_all ps d)) \<and> n \<in> Mapping.keys (m_model (add_all ps d))"
    by (force simp: keys_add_all)
  show "\<forall>k v. Mapping.lookup (m_model d) k = Some v \<longrightarrow>
      (\<exists>v'. Mapping.lookup (m_model (add_all ps d)) k = Some (v @ v'))"
    using add_all_extends by blast
  show "Mapping.keys (m_model d) \<subseteq> Mapping.keys (m_model (add_all ps d))"
    by (auto simp: keys_add_all)
qed

theorem add_only_grows_witness:
  "Mapping.lookup (m_model (snd (add ''.'' ''a'' (Distr_init ())))) ''.'' = Some [''a''] \<and>
   ''b'' \<in> Mapping.keys
      (m_model (add_all [(''a'', ''b''), (''b'', ''a'')] (snd (add ''.'' ''a'' (Distr_init ()))))) \<and>
   (\<exists>v'. Mapping.lookup
      (m_model (add_all [(''a'', ''b''), (''b'', ''a'')] (snd (add ''.'' ''a'' (Distr_init ())))))
      ''.'' = Some ([''a''] @ v'))"
proof -
  have h: "Mapping.lookup (m_model (snd (add ''.'' ''a'' (Distr_init ())))) ''.'' = Some [''a'']"
    by (simp add: lookup_add stored_def Distr_init_def)
  have p: "(''a'', ''b'') \<in> set [(''a'', ''b''), (''b'', ''a'')]"
    by simp
  from add_only_grows [of "[(''a'', ''b''), (''b'', ''a'')]" "snd (add ''.'' ''a'' (Distr_init ()))"]
  show ?thesis using h p by blast
qed

section \<open>The input loop\<close>

lemma link_pairs_Nil: "link_pairs p [] = []"
  by (simp add: link_pairs_def)

lemma link_pairs_Cons: "link_pairs p (t # ts) = (p, t) # link_pairs t ts"
  by (cases ts) (simp_all add: link_pairs_def)

lemma link_pairs_append:
  "ts \<noteq> [] \<Longrightarrow> link_pairs p (ts @ us) = link_pairs p ts @ link_pairs (last ts) us"
  by (induction ts arbitrary: p) (auto simp: link_pairs_Cons link_pairs_Nil)

lemma set_link_pairs:
  "ls \<noteq> [] \<Longrightarrow> fst ` set (link_pairs p ls) \<union> snd ` set (link_pairs p ls) = insert p (set ls)"
proof -
  assume ne: "ls \<noteq> []"
  have len: "length (p # butlast ls) = length ls" using ne by simp
  have f: "fst ` set (link_pairs p ls) = set (p # butlast ls)"
    unfolding link_pairs_def using len by (metis map_fst_zip set_map)
  have s: "snd ` set (link_pairs p ls) = set ls"
    unfolding link_pairs_def using len by (metis map_snd_zip set_map)
  have "set (butlast ls) \<subseteq> set ls"
    by (auto dest: in_set_butlastD)
  then show ?thesis
    unfolding f s by auto
qed

lemma chunk_loop_Nil: "chunk_loop prevIt [] s = Inl EndIteratorDeref"
  by simp

lemma add_eq: "add c n d = (n, snd (add c n d))"
  by (simp add: add_def split: prod.split)

lemma chunk_loop_last:
  "chunk_loop prevIt [t] s =
     Inr (s\<lparr>lastLexStrPtr := Some t,
            distr := snd (add (first_pred prevIt s) t (distr s)),
            prevChunkLastLexStrPtr := Some t\<rparr>)"
  by (simp add: first_pred_def case_prod_beta fst_add)

lemma chunk_loop_step:
  "rest \<noteq> [] \<Longrightarrow>
   chunk_loop prevIt (t # rest) s =
     chunk_loop (Some t) rest
       (s\<lparr>lastLexStrPtr := Some t,
          distr := snd (add (first_pred prevIt s) t (distr s)),
          prevChunkLastLexStrPtr := None\<rparr>)"
  by (simp add: first_pred_def case_prod_beta fst_add)

lemma chunk_loop_Cons:
  "\<exists>s'. chunk_loop prevIt (t # rest) s = Inr s' \<and>
        distr s' = add_all (link_pairs (first_pred prevIt s) (t # rest)) (distr s) \<and>
        prevChunkLastLexStrPtr s' = Some (last (t # rest)) \<and>
        lastLexStrPtr s' = Some (last (t # rest)) \<and>
        lex s' = lex s \<and> i s' = i s \<and> out s' = out s"
proof (induction rest arbitrary: prevIt t s)
  case Nil
  show ?case
    by (simp only: chunk_loop_last) (simp add: link_pairs_Cons link_pairs_Nil)
next
  case (Cons u rest)
  define s2 where "s2 = s\<lparr>lastLexStrPtr := Some t,
          distr := snd (add (first_pred prevIt s) t (distr s)),
          prevChunkLastLexStrPtr := None\<rparr>"
  have fp: "first_pred (Some t) s2 = t"
    by (simp add: first_pred_def s2_def)
  have ds2: "distr s2 = snd (add (first_pred prevIt s) t (distr s))"
    by (simp add: s2_def)
  have step: "chunk_loop prevIt (t # u # rest) s = chunk_loop (Some t) (u # rest) s2"
    unfolding s2_def by (rule chunk_loop_step) simp
  from Cons.IH [of "Some t" u s2] obtain s' where
    s': "chunk_loop (Some t) (u # rest) s2 = Inr s'"
        "distr s' = add_all (link_pairs (first_pred (Some t) s2) (u # rest)) (distr s2)"
        "prevChunkLastLexStrPtr s' = Some (last (u # rest))"
        "lastLexStrPtr s' = Some (last (u # rest))"
        "lex s' = lex s2" "i s' = i s2" "out s' = out s2"
    by blast
  have "chunk_loop prevIt (t # u # rest) s = Inr s'"
    using step s'(1) by simp
  moreover have "distr s' = add_all (link_pairs (first_pred prevIt s) (t # u # rest)) (distr s)"
    using s'(2) by (simp add: fp ds2 link_pairs_Cons [of _ t])
  moreover have "prevChunkLastLexStrPtr s' = Some (last (t # u # rest))"
    using s'(3) by simp
  moreover have "lastLexStrPtr s' = Some (last (t # u # rest))"
    using s'(4) by simp
  moreover have "lex s' = lex s" "i s' = i s" "out s' = out s"
    using s'(5,6,7) by (simp_all add: s2_def)
  ultimately show ?case by blast
qed

lemma chunk_loop_result:
  "chunk_loop prevIt ts s = Inr s' \<Longrightarrow>
     ts \<noteq> [] \<and>
     distr s' = add_all (link_pairs (first_pred prevIt s) ts) (distr s) \<and>
     prevChunkLastLexStrPtr s' = Some (last ts) \<and>
     lastLexStrPtr s' = Some (last ts) \<and>
     lex s' = lex s \<and> i s' = i s \<and> out s' = out s"
proof (cases ts)
  case Nil
  assume "chunk_loop prevIt ts s = Inr s'"
  with Nil show ?thesis by simp
next
  case (Cons t rest)
  assume r: "chunk_loop prevIt ts s = Inr s'"
  from chunk_loop_Cons [of prevIt t rest s] r Cons show ?thesis by auto
qed

lemma chunk_loop_fault_iff:
  "chunk_loop prevIt ts s = Inl e \<longleftrightarrow> ts = [] \<and> e = EndIteratorDeref"
proof (cases ts)
  case Nil
  then show ?thesis by auto
next
  case (Cons t rest)
  from chunk_loop_Cons [of prevIt t rest s] Cons show ?thesis by auto
qed

lemma first_pred_None: "first_pred None s = pred0 s"
  by (simp add: first_pred_def pred0_def split: option.split)

lemma main_parse_result:
  "main_parse cs s = Inr s' \<Longrightarrow>
     (\<forall>c \<in> set cs. tokens c \<noteq> []) \<and>
     distr s' = add_all (link_pairs (pred0 s) (concat (map tokens cs))) (distr s) \<and>
     pred0 s' = (if concat (map tokens cs) = [] then pred0 s else last (concat (map tokens cs))) \<and>
     lex s' = lex s \<and> i s' = i s \<and> out s' = out s"
proof (induction cs arbitrary: s)
  case Nil
  then show ?case by (simp add: link_pairs_Nil)
next
  case (Cons c cs)
  from Cons.prems obtain s1 where
    c1: "chunk_loop None (tokens c) s = Inr s1" and r: "main_parse cs s1 = Inr s'"
    by (auto split: sum.splits)
  note f = chunk_loop_result [OF c1]
  note g = Cons.IH [OF r]
  have p1: "pred0 s1 = last (tokens c)"
    using f by (simp add: pred0_def)
  from f have ne: "tokens c \<noteq> []" by simp
  have "distr s' = add_all (link_pairs (pred0 s) (tokens c @ concat (map tokens cs))) (distr s)"
    using f g ne by (simp add: link_pairs_append add_all_append p1 first_pred_None)
  moreover have "pred0 s' = last (tokens c @ concat (map tokens cs))"
    using g ne p1 by simp
  ultimately show ?case
    using f g ne by simp
qed

lemma main_parse_total:
  "\<forall>c \<in> set cs. tokens c \<noteq> [] \<Longrightarrow> \<exists>s'. main_parse cs s = Inr s'"
proof (induction cs arbitrary: s)
  case Nil
  then show ?case by simp
next
  case (Cons c cs)
  then obtain t rest where t: "tokens c = t # rest" by (cases "tokens c") auto
  from chunk_loop_Cons [of None t rest s] obtain s1 where "chunk_loop None (tokens c) s = Inr s1"
    using t by auto
  with Cons show ?case by auto
qed

lemma main_parse_fault:
  "main_parse cs s = Inl e \<Longrightarrow> e = EndIteratorDeref \<and> (\<exists>c \<in> set cs. tokens c = [])"
proof (induction cs arbitrary: s)
  case Nil
  then show ?case by simp
next
  case (Cons c cs)
  then show ?case
    by (auto split: sum.splits simp: chunk_loop_fault_iff)
qed

text \<open>
  When the input loop completes, every chunk has yielded a lexeme, and the model is the
  result of adding, in input order, each lexeme of the text with the lexeme before it as
  predecessor, chunk boundaries notwithstanding; the first lexeme has the sentinel as
  predecessor.
\<close>

lemma build_model_result:
  "build_model g text = Inr s \<Longrightarrow>
     distr s = add_all (link_pairs kStartingLex (lexemes text)) (Distr_init g) \<and>
     (\<forall>c \<in> set (chunks text). tokens c \<noteq> [])"
  using main_parse_result [of "chunks text" "main_init g" s]
  by (simp add: build_model_def lexemes_def pred0_def main_init_def)

lemma keys_Distr_init: "Mapping.keys (m_model (Distr_init g)) = {}"
  by (simp add: Distr_init_def)

lemma build_no_lexemes:
  "build_model g text = Inr s \<Longrightarrow> lexemes text = [] \<Longrightarrow> uniqueLexCount (distr s) = 0"
  using build_model_result [of g "text" s]
  by (simp add: link_pairs_Nil uniqueLexCount_def Distr_init_def)

lemma build_keys:
  assumes b: "build_model g text = Inr s" and ne: "lexemes text \<noteq> []"
  shows "Mapping.keys (m_model (distr s)) = insert kStartingLex (set (lexemes text))"
proof -
  from build_model_result [OF b]
  have d: "distr s = add_all (link_pairs kStartingLex (lexemes text)) (Distr_init g)"
    by simp
  show ?thesis
    unfolding d keys_add_all keys_Distr_init using set_link_pairs [OF ne, of kStartingLex]
    by simp
qed

lemma build_some_lexeme:
  "build_model g text = Inr s \<Longrightarrow> 0 < uniqueLexCount (distr s) \<Longrightarrow> lexemes text \<noteq> []"
  using build_no_lexemes [of g "text" s] by auto

lemma lookup_first_pair:
  "Mapping.lookup (m_model (snd (add c n (Distr_init g)))) c = Some [n]"
  by (simp add: lookup_add stored_def Distr_init_def)

lemma sentinel_entry_built:
  assumes b: "build_model g text = Inr s" and ne: "lexemes text \<noteq> []"
  shows "\<exists>v. Mapping.lookup (m_model (distr s)) kStartingLex = Some (hd (lexemes text) # v)"
proof -
  from ne obtain t rest where l: "lexemes text = t # rest" by (cases "lexemes text") auto
  from build_model_result [OF b]
  have d: "distr s = add_all (link_pairs t rest) (snd (add kStartingLex t (Distr_init g)))"
    by (simp add: l link_pairs_Cons)
  from add_all_extends [OF lookup_first_pair, of "link_pairs t rest" kStartingLex t g]
  show ?thesis by (simp add: d l)
qed

subsection \<open>Concrete inputs\<close>

lemmas lexer_simps = lexemes_def chunks_def tokens_def match_lex_def is_w_def isalnum_c_def
  ispunct_c_def isspace_c_def

lemmas run_simps = main_generate_def gen_step_def nextLex_def emplace_lex_def distribution_for_def
  to_int_def add_def Distr_init_def main_init_def uniqueLexCount_def is_punctation_def
  kStartingLex_def kTerminatorLex_def first_index_def ispunct_c_def Mapping.lookup_update'
  Mapping.size_def Let_def

lemma tokens_dash: "tokens [CHR 0xE2, CHR 0x80, CHR 0x94] = []"
  by (simp add: lexer_simps)

lemma tokens_ctrl: "tokens [CHR 0x01] = []"
  by (simp add: lexer_simps)

lemma lexemes_a_b: "lexemes ''a b .'' = [''a'', ''b'', ''.'']"
  by (simp add: lexer_simps)

lemma chunks_a_b: "chunks ''a b .'' = [''a'', ''b'', ''.'']"
  by (simp add: chunks_def isspace_c_def)

lemma build_a_b: "\<exists>s. build_model () ''a b .'' = Inr s"
  unfolding build_model_def
  by (rule main_parse_total) (simp add: chunks_a_b, simp add: lexer_simps)

lemma build_a:
  "build_model () ''a'' =
     Inr ((built_from [(''.'', ''a'')])
            \<lparr>prevChunkLastLexStrPtr := Some ''a'', lastLexStrPtr := Some ''a''\<rparr>)"
proof -
  have c: "chunks ''a'' = [''a'']"
    by (simp add: chunks_def isspace_c_def)
  have t: "tokens ''a'' = [''a'']"
    by (simp add: lexer_simps)
  show ?thesis
    unfolding build_model_def c
    by (simp add: t chunk_loop_last first_pred_def built_from_def main_init_def kStartingLex_def
        del: chunk_loop.simps(2))
qed


lemma hello_built:
  "\<exists>s. build_model () ''Hello, world.'' = Inr s \<and> distr s = distr (built_from hello_pairs) \<and>
       out s = out (built_from hello_pairs)"
proof -
  have l: "lexemes ''Hello, world.'' = [''Hello'', '','', ''world'', ''.'']"
    by (simp add: lexer_simps)
  have c: "chunks ''Hello, world.'' = [''Hello,'', ''world.'']"
    by (simp add: chunks_def isspace_c_def)
  have "\<exists>s. build_model () ''Hello, world.'' = Inr s"
    unfolding build_model_def
    by (rule main_parse_total) (simp add: c, simp add: lexer_simps)
  then obtain s where s: "build_model () ''Hello, world.'' = Inr s" by blast
  from build_model_result [OF s] have "distr s = distr (built_from hello_pairs)"
    by (simp add: l link_pairs_def built_from_def hello_pairs_def kStartingLex_def)
  moreover from main_parse_result [of "chunks ''Hello, world.''" "main_init ()" s] s
  have "out s = out (built_from hello_pairs)"
    by (simp add: build_model_def built_from_def)
  ultimately show ?thesis using s by blast
qed

lemma link_pairs_replicate: "link_pairs c (replicate n c) = replicate n (c, c)"
  by (induction n) (simp_all add: link_pairs_Nil link_pairs_Cons)

lemma build_repeated:
  "build_model g text = Inr s \<Longrightarrow> lexemes text = replicate (Suc n) c \<Longrightarrow>
   distr s = add_all ((kStartingLex, c) # replicate n (c, c)) (Distr_init g)"
  using build_model_result [of g "text" s]
  by (simp add: link_pairs_Cons link_pairs_replicate)

subsection \<open>A chunk without lexemes\<close>

text \<open>
  Claim C4 says that a chunk yielding no lexeme is passed over: no fault, no pair, model
  and last lexeme unchanged. The code does otherwise. The chunk made of the three bytes of a
  UTF-8 dash (\<^verbatim>\<open>E2 80 94\<close>) holds no word character and no punctuation character of the
  classic locale, so it yields no lexeme, and neither does the chunk of the one control
  character \<^verbatim>\<open>01\<close>; the inner loop then reads through the end iterator in its first
  statement, from any state. (So it does for every chunk without lexemes:
  \<open>chunk_loop_fault_iff\<close>.)
\<close>

theorem zero_lexeme_chunk_faults:
  "tokens [CHR 0xE2, CHR 0x80, CHR 0x94] = [] \<and>
   chunk_loop None (tokens [CHR 0xE2, CHR 0x80, CHR 0x94]) s = Inl EndIteratorDeref \<and>
   main_parse [[CHR 0xE2, CHR 0x80, CHR 0x94]] s = Inl EndIteratorDeref \<and>
   tokens [CHR 0x01] = [] \<and>
   chunk_loop None (tokens [CHR 0x01]) s = Inl EndIteratorDeref"
  by (simp add: tokens_dash tokens_ctrl)

text \<open>
  Claim C2 says that the first lexeme of a later chunk gets as predecessor the last lexeme
  of the most recent chunk that produced one. On the text \<^verbatim>\<open>a\<close>, dash, \<^verbatim>\<open>b\<close> the code
  never gives \<^verbatim>\<open>b\<close> a predecessor: the run faults at the second chunk, by the defect shown
  for C4. (For a text whose chunks all yield a lexeme the linking is as claimed:
  \<open>build_model_result\<close>; the input loop has no other fault: \<open>main_parse_fault\<close>.)
\<close>

theorem link_across_empty_chunk_faults:
  "chunks (''a '' @ [CHR 0xE2, CHR 0x80, CHR 0x94] @ '' b'') = [''a'', [CHR 0xE2, CHR 0x80, CHR 0x94], ''b''] \<and>
   build_model g (''a '' @ [CHR 0xE2, CHR 0x80, CHR 0x94] @ '' b'') = Inl EndIteratorDeref"
proof -
  have c: "chunks (''a '' @ [CHR 0xE2, CHR 0x80, CHR 0x94] @ '' b'') = [''a'', [CHR 0xE2, CHR 0x80, CHR 0x94], ''b'']"
    by (simp add: chunks_def isspace_c_def)
  have a: "tokens ''a'' = [''a'']" by (simp add: lexer_simps)
  show ?thesis
    unfolding build_model_def c
    by (simp add: a tokens_dash chunk_loop_last del: chunk_loop.simps(2))
qed

subsection \<open>The number of unique lexemes\<close>

text \<open>
  Claim C8, as amended. When the model has been built from a text, \<^verbatim>\<open>uniqueLexCount\<close> is 0
  if no lexeme was extracted, and otherwise the number of distinct lexemes extracted, plus
  one for the sentinel if its text is not among them.
\<close>

theorem uniqueLexCount_built:
  "build_model g text = Inr s \<Longrightarrow>
   uniqueLexCount (distr s) =
     (if lexemes text = [] then 0 else spec_unique_count (lexemes text))"
proof (cases "lexemes text = []")
  case True
  assume b: "build_model g text = Inr s"
  from build_no_lexemes [OF b True] True show ?thesis by simp
next
  case False
  assume b: "build_model g text = Inr s"
  note k = build_keys [OF b False]
  have "Mapping.size (m_model (distr s)) = card (insert kStartingLex (set (lexemes text)))"
    by (simp add: Mapping.size_def k)
  also have "\<dots> = spec_unique_count (lexemes text)"
    by (simp add: spec_unique_count_def card_insert_if)
  finally show ?thesis
    using False by (simp add: uniqueLexCount_def)
qed

theorem uniqueLexCount_built_witness:
  "\<exists>s. build_model () ''a b .'' = Inr s \<and> uniqueLexCount (distr s) = 3"
proof -
  from build_a_b obtain s where s: "build_model () ''a b .'' = Inr s" by blast
  from uniqueLexCount_built [OF s] have "uniqueLexCount (distr s) = 3"
    by (simp add: lexemes_a_b spec_unique_count_def kStartingLex_def)
  with s show ?thesis by blast
qed

text \<open>
  The claim as stated counts the sentinel for every text. For the empty text nothing is
  extracted, the sentinel is not among the lexemes, and the claimed count is 1; the model
  is empty.
\<close>

lemma build_empty: "build_model g [] = Inr (main_init g)"
  by (simp add: build_model_def chunks_def)

theorem uniqueLexCount_built_counterexample:
  "build_model () [] = Inr (main_init ()) \<and>
   uniqueLexCount (distr (main_init ())) = 0 \<and>
   spec_unique_count (lexemes []) = 1"
  by (simp add: build_empty uniqueLexCount_def main_init_def Distr_init_def
      spec_unique_count_def lexemes_def chunks_def)

section \<open>Facts about nextLex\<close>


lemma stored_Some: "Mapping.lookup m k = Some v \<Longrightarrow> stored m k = v"
  by (simp add: stored_def)

lemma stored_None: "Mapping.lookup m k = None \<Longrightarrow> stored m k = []"
  by (simp add: stored_def)

lemma stored_empty_iff:
  "stored m k = [] \<longleftrightarrow> Mapping.lookup m k = None \<or> Mapping.lookup m k = Some []"
  by (auto simp: stored_def split: option.splits)

lemma emplace_lex_stored:
  "emplace_lex k m = (stored m k, if k \<in> Mapping.keys m then m else Mapping.update k [] m)"
  by (auto simp: emplace_lex_def stored_def Mapping.keys_dom_lookup split: option.split)

lemma nextLex_empty:
  "stored (m_model d) k = [] \<Longrightarrow>
   nextLex draw k d =
     (Inl LookupError,
      d\<lparr>m_model := (if k \<in> Mapping.keys (m_model d) then m_model d else Mapping.update k [] (m_model d))\<rparr>)"
  by (simp add: nextLex_def emplace_lex_stored)

lemma stored_nonempty_key: "stored m k \<noteq> [] \<Longrightarrow> k \<in> Mapping.keys m"
  by (auto simp: stored_def Mapping.keys_dom_lookup split: option.splits)


lemma nextLex_nonempty:
  "stored (m_model d) k \<noteq> [] \<Longrightarrow>
   nextLex draw k d =
     (let S = stored (m_model d) k;
          p = fst (distribution_for (length S) (m_uniform_sitribution_states d));
          d2 = d\<lparr>m_uniform_sitribution_states :=
                   snd (distribution_for (length S) (m_uniform_sitribution_states d))\<rparr>
      in if snd p < fst p then (Inl InvalidDistributionRange, d2)
         else
           (let idx = fst (draw (fst p) (snd p) (m_gen d));
                d3 = d2\<lparr>m_gen := snd (draw (fst p) (snd p) (m_gen d))\<rparr>
            in if idx < 0 \<or> int (length S) \<le> idx then (Inl IndexOutOfRange, d3)
               else (Inr (S ! nat idx), d3)))"
  by (simp add: nextLex_def emplace_lex_stored stored_nonempty_key case_prod_beta Let_def)

lemma nextLex_LookupError_iff:
  "fst (nextLex draw k d) = Inl LookupError \<longleftrightarrow> stored (m_model d) k = []"
proof (cases "stored (m_model d) k = []")
  case True
  then show ?thesis by (simp add: nextLex_empty)
next
  case False
  then show ?thesis by (simp add: nextLex_nonempty Let_def)
qed



lemma nextLex_success:
  "fst (nextLex draw k d) = Inr x \<Longrightarrow>
   \<exists>S. Mapping.lookup (m_model d) k = Some S \<and> x \<in> set S \<and>
       m_model (snd (nextLex draw k d)) = m_model d"
proof -
  assume r: "fst (nextLex draw k d) = Inr x"
  have ne: "stored (m_model d) k \<noteq> []"
    using r nextLex_empty [of d k draw] by auto
  then obtain S where S: "Mapping.lookup (m_model d) k = Some S"
    by (auto simp: stored_def split: option.splits)
  then have st: "stored (m_model d) k = S" by (simp add: stored_def)
  from r ne have "x \<in> set S"
    by (auto simp: nextLex_nonempty Let_def st split: if_splits)
  moreover have "m_model (snd (nextLex draw k d)) = m_model d"
    using ne by (simp add: nextLex_nonempty Let_def)
  ultimately show ?thesis using S by blast
qed


lemma distribution_for_ok:
  assumes "cache_ok st"
  shows "fst (distribution_for n st) = (0, to_int (n - 1)) \<and> cache_ok (snd (distribution_for n st))"
proof (cases "Mapping.lookup st (to_int (n - 1))")
  case None
  have "cache_ok (Mapping.update (to_int (n - 1)) (0, to_int (n - 1)) st)"
    using assms by (auto simp: cache_ok_def Mapping.lookup_update')
  with None show ?thesis
    by (simp add: distribution_for_def Let_def)
next
  case (Some p)
  then have "to_int (n - 1) \<in> Mapping.keys st"
    by (auto simp: Mapping.keys_dom_lookup)
  with assms have "Mapping.lookup st (to_int (n - 1)) = Some (0, to_int (n - 1))"
    unfolding cache_ok_def by blast
  with Some have "p = (0, to_int (n - 1))" by simp
  with Some assms show ?thesis
    by (simp add: distribution_for_def Let_def)
qed

lemma nextLex_keeps_cache_ok:
  assumes "cache_ok (m_uniform_sitribution_states d)"
  shows "cache_ok (m_uniform_sitribution_states (snd (nextLex draw k d)))"
proof (cases "stored (m_model d) k = []")
  case True
  with assms show ?thesis by (simp add: nextLex_empty)
next
  case False
  from distribution_for_ok [OF assms, of "length (stored (m_model d) k)"]
  have "cache_ok (snd (distribution_for (length (stored (m_model d) k)) (m_uniform_sitribution_states d)))"
    by simp
  with False show ?thesis by (simp add: nextLex_nonempty Let_def)
qed





lemma one_pair_lookup:
  "Mapping.lookup (m_model (distr (built_from [(''.'', ''a'')]))) ''.'' = Some [''a'']"
  "Mapping.lookup (m_model (distr (built_from [(''.'', ''a'')]))) ''a'' = Some []"
  "Mapping.lookup (m_model (distr (built_from [(''.'', ''a'')]))) ''zzz'' = None"
  by (simp_all add: built_from_def lookup_add stored_def Distr_init_def)


subsection \<open>Sampling the next lexeme\<close>




subsection \<open>The first draw\<close>

text \<open>
  Claim C10. When the input loop has completed and \<^verbatim>\<open>uniqueLexCount\<close> is positive, the
  sentinel has an entry whose vector starts with the first lexeme of the text, so the
  first draw \<^verbatim>\<open>nextLex (kStartingLex)\<close> does not fail with \<open>LookupError\<close>.
\<close>

theorem sentinel_has_successor:
  "build_model g text = Inr s \<Longrightarrow> 0 < uniqueLexCount (distr s) \<Longrightarrow>
   (\<exists>v. Mapping.lookup (m_model (distr s)) kStartingLex = Some (hd (lexemes text) # v)) \<and>
   fst (nextLex draw kStartingLex (distr s)) \<noteq> Inl LookupError"
proof -
  assume b: "build_model g text = Inr s" and c: "0 < uniqueLexCount (distr s)"
  note ne = build_some_lexeme [OF b c]
  from sentinel_entry_built [OF b ne] obtain v where
    v: "Mapping.lookup (m_model (distr s)) kStartingLex = Some (hd (lexemes text) # v)" by blast
  then have "stored (m_model (distr s)) kStartingLex \<noteq> []"
    by (simp add: stored_def)
  then have "fst (nextLex draw kStartingLex (distr s)) \<noteq> Inl LookupError"
    by (simp add: nextLex_LookupError_iff)
  with v show ?thesis by blast
qed

theorem sentinel_has_successor_witness:
  "\<exists>s. build_model () ''a b .'' = Inr s \<and> 0 < uniqueLexCount (distr s) \<and>
       (\<exists>v. Mapping.lookup (m_model (distr s)) ''.'' = Some (''a'' # v)) \<and>
       fst (nextLex first_index ''.'' (distr s)) \<noteq> Inl LookupError"
proof -
  from build_a_b obtain s where s: "build_model () ''a b .'' = Inr s" by blast
  have ne: "lexemes ''a b .'' \<noteq> []" by (simp add: lexemes_a_b)
  from build_keys [OF s ne] have "Mapping.keys (m_model (distr s)) = {''.'', ''a'', ''b''}"
    by (auto simp: lexemes_a_b kStartingLex_def)
  then have c: "0 < uniqueLexCount (distr s)"
    by (simp add: uniqueLexCount_def Mapping.size_def)
  from sentinel_has_successor [OF s c, of first_index] s c show ?thesis
    by (auto simp: lexemes_a_b kStartingLex_def)
qed

section \<open>The generation loop\<close>



lemma gen_step_abort:
  "fst (nextLex draw (lex s) (distr s)) = Inl e \<Longrightarrow>
   gen_step limit draw s =
     (Aborted e, s\<lparr>out := out s @ [Lexeme (lex s)], distr := snd (nextLex draw (lex s) (distr s))\<rparr>)"
  by (simp add: gen_step_def case_prod_beta Let_def)

lemma gen_step_drawn:
  "fst (nextLex draw (lex s) (distr s)) = Inr l \<Longrightarrow>
   gen_step limit draw s =
     (let s4 = s\<lparr>out := out s @ Lexeme (lex s) # separator l,
                  distr := snd (nextLex draw (lex s) (distr s)), lex := l\<rparr>
      in if i s = 2147483647 then (Aborted SignedOverflow, s4)
         else if limit < i s + 1 \<and> l = kTerminatorLex
           then (if i s + 1 = 2147483647
                 then (Aborted SignedOverflow,
                       s4\<lparr>i := i s + 1, out := out s4 @ [Lexeme l, EndLine]\<rparr>)
                 else (Finished, s4\<lparr>i := i s + 2, out := out s4 @ [Lexeme l, EndLine]\<rparr>))
           else (Running, s4\<lparr>i := i s + 1\<rparr>))"
  by (simp add: gen_step_def case_prod_beta Let_def separator_def)



lemma gen_loop_abort:
  "fst (nextLex draw (lex s) (distr s)) = Inl e \<Longrightarrow>
   gen_loop limit draw s =
     Some (Aborted e,
           s\<lparr>out := out s @ [Lexeme (lex s)], distr := snd (nextLex draw (lex s) (distr s))\<rparr>)"
  by (subst gen_loop.simps) (simp add: gen_step_abort Let_def)

lemma main_generate_abort:
  "0 < uniqueLexCount (distr s) \<Longrightarrow> fst (nextLex draw kStartingLex (distr s)) = Inl e \<Longrightarrow>
   main_generate limit draw s =
     Some (Aborted e, s\<lparr>distr := snd (nextLex draw kStartingLex (distr s))\<rparr>)"
  by (simp add: main_generate_def case_prod_beta Let_def)







subsection \<open>Where generation stops\<close>



subsection \<open>The separating space\<close>

text \<open>
  Claim C5, as amended. In every pass through the loop body that draws a next lexeme,
  after the current lexeme is emitted a space is emitted if and only if the lexeme just
  drawn, the one to be emitted next, is not punctuation-classified. The separator depends
  on the next lexeme only, not on the lexeme just emitted. (Nothing else is written in the
  pass, except the final sentinel and the line end when the loop is left.)
\<close>

theorem separator_follows_drawn_lexeme:
  "fst (nextLex draw (lex s) (distr s)) = Inr l \<Longrightarrow>
   \<exists>rest. out (snd (gen_step limit draw s)) =
            out s @ Lexeme (lex s) # (if is_punctation l then [] else [Space]) @ rest \<and>
          (rest = [] \<or> rest = [Lexeme l, EndLine])"
  by (simp add: gen_step_drawn Let_def separator_def)

theorem separator_follows_drawn_lexeme_witness:
  "fst (nextLex first_index ''Hello'' (distr (built_from hello_pairs))) = Inr '','' \<and>
   is_punctation '','' \<and>
   (\<exists>rest. out (snd (gen_step 0 first_index ((built_from hello_pairs)\<lparr>lex := ''Hello''\<rparr>))) =
            Lexeme ''Hello'' # rest \<and> (rest = [] \<or> rest = [Lexeme '','', EndLine]))"
proof -
  let ?s = "(built_from hello_pairs)\<lparr>lex := ''Hello''\<rparr>"
  have n: "fst (nextLex first_index (lex ?s) (distr ?s)) = Inr '',''"
    by (simp add: built_from_def hello_pairs_def run_simps)
  have p: "is_punctation '',''"
    by (simp add: is_punctation_def ispunct_c_def)
  have o: "out ?s = []"
    by (simp add: built_from_def main_init_def)
  from separator_follows_drawn_lexeme [OF n, of 0] n p o show ?thesis
    by simp
qed

text \<open>
  The claim as stated makes the space depend on the lexeme just emitted. In the run on the
  model of \<^verbatim>\<open>Hello, world.\<close> no space follows \<^verbatim>\<open>Hello\<close>, which is not punctuation, and a
  space follows the comma, which is.
\<close>

theorem separator_follows_drawn_lexeme_counterexample:
  "map_option (\<lambda>r. (fst r, out (snd r))) (main_generate 0 first_index (built_from hello_pairs)) =
     Some (Finished, [Lexeme ''Hello'', Lexeme '','', Space, Lexeme ''world'', Lexeme ''.'', EndLine]) \<and>
   \<not> is_punctation ''Hello'' \<and> is_punctation '',''"
  by (simp add: built_from_def hello_pairs_def gen_loop.simps run_simps)

subsection \<open>Lookup failure\<close>

text \<open>
  Claim C6. \<^verbatim>\<open>nextLex\<close> fails with \<open>LookupError\<close> exactly when the lexeme has no entry or its
  entry holds an empty vector. The failure ends the run: in the loop and at the first draw
  the result is \<open>Aborted LookupError\<close>, with nothing written after what had been emitted.
  When \<^verbatim>\<open>nextLex\<close> succeeds, the result is an element of the stored vector and the model
  is as before.
\<close>

theorem nextLex_lookup_error:
  "(fst (nextLex draw curLex d) = Inl LookupError \<longleftrightarrow>
      Mapping.lookup (m_model d) curLex = None \<or> Mapping.lookup (m_model d) curLex = Some []) \<and>
   (fst (nextLex draw (lex s) (distr s)) = Inl LookupError \<longrightarrow>
      (\<exists>s'. gen_loop limit draw s = Some (Aborted LookupError, s') \<and>
            out s' = out s @ [Lexeme (lex s)])) \<and>
   (0 < uniqueLexCount (distr s) \<and> fst (nextLex draw kStartingLex (distr s)) = Inl LookupError \<longrightarrow>
      (\<exists>s'. main_generate limit draw s = Some (Aborted LookupError, s') \<and> out s' = out s)) \<and>
   (\<forall>x. fst (nextLex draw curLex d) = Inr x \<longrightarrow>
      (\<exists>S. Mapping.lookup (m_model d) curLex = Some S \<and> x \<in> set S \<and>
           m_model (snd (nextLex draw curLex d)) = m_model d))"
proof (intro conjI)
  show "fst (nextLex draw curLex d) = Inl LookupError \<longleftrightarrow>
      Mapping.lookup (m_model d) curLex = None \<or> Mapping.lookup (m_model d) curLex = Some []"
    by (simp add: nextLex_LookupError_iff stored_empty_iff)
  show "fst (nextLex draw (lex s) (distr s)) = Inl LookupError \<longrightarrow>
      (\<exists>s'. gen_loop limit draw s = Some (Aborted LookupError, s') \<and>
            out s' = out s @ [Lexeme (lex s)])"
    by (simp add: gen_loop_abort)
  show "0 < uniqueLexCount (distr s) \<and> fst (nextLex draw kStartingLex (distr s)) = Inl LookupError \<longrightarrow>
      (\<exists>s'. main_generate limit draw s = Some (Aborted LookupError, s') \<and> out s' = out s)"
    by (simp add: main_generate_abort)
  show "\<forall>x. fst (nextLex draw curLex d) = Inr x \<longrightarrow>
      (\<exists>S. Mapping.lookup (m_model d) curLex = Some S \<and> x \<in> set S \<and>
           m_model (snd (nextLex draw curLex d)) = m_model d)"
    using nextLex_success by blast
qed

theorem nextLex_lookup_error_witness:
  "fst (nextLex first_index ''a'' (distr (built_from [(''.'', ''a'')]))) = Inl LookupError \<and>
   fst (nextLex first_index ''zzz'' (distr (built_from [(''.'', ''a'')]))) = Inl LookupError \<and>
   fst (nextLex first_index ''.'' (distr (built_from [(''.'', ''a'')]))) = Inr ''a'' \<and>
   (\<exists>s'. gen_loop 0 first_index ((built_from [(''.'', ''a'')])\<lparr>lex := ''a''\<rparr>) =
           Some (Aborted LookupError, s') \<and> out s' = [Lexeme ''a'']) \<and>
   (\<exists>s'. main_generate 0 first_index (built_from [(''a'', ''b'')]) =
           Some (Aborted LookupError, s') \<and> out s' = []) \<and>
   (\<exists>S. Mapping.lookup (m_model (distr (built_from [(''.'', ''a'')]))) ''.'' = Some S \<and> ''a'' \<in> set S)"
proof -
  let ?d = "distr (built_from [(''.'', ''a'')])"
  let ?s = "(built_from [(''.'', ''a'')])\<lparr>lex := ''a''\<rparr>"
  let ?t = "built_from [(''a'', ''b'')]"
  have a: "fst (nextLex first_index ''a'' ?d) = Inl LookupError"
    using nextLex_lookup_error [of first_index "''a''" ?d] one_pair_lookup by simp
  have z: "fst (nextLex first_index ''zzz'' ?d) = Inl LookupError"
    using nextLex_lookup_error [of first_index "''zzz''" ?d] one_pair_lookup by simp
  have st: "stored (m_model ?d) ''.'' = [''a'']"
    by (simp add: stored_def one_pair_lookup)
  have c: "m_uniform_sitribution_states ?d = Mapping.empty"
    by (simp add: built_from_def add_keeps_cache Distr_init_def)
  have ok: "fst (nextLex first_index ''.'' ?d) = Inr ''a''"
    by (simp add: nextLex_nonempty st c Let_def distribution_for_def to_int_def first_index_def)
  have ls: "lex ?s = ''a''" "distr ?s = ?d" "out ?s = []"
    by (simp_all add: built_from_def main_init_def)
  have tn: "Mapping.lookup (m_model (distr ?t)) ''.'' = None"
    by (simp add: built_from_def lookup_add Distr_init_def)
  have tk: "0 < uniqueLexCount (distr ?t)"
    by (simp add: built_from_def keys_add Distr_init_def uniqueLexCount_def Mapping.size_def)
  have tf: "fst (nextLex first_index kStartingLex (distr ?t)) = Inl LookupError"
    using nextLex_lookup_error [of first_index "''.''" "distr ?t"] tn
    by (simp add: kStartingLex_def)
  have t0: "out ?t = []"
    by (simp add: built_from_def main_init_def)
  from nextLex_lookup_error [of first_index "''.''" ?d ?s 0] a ok ls
  have p1: "\<exists>s'. gen_loop 0 first_index ?s = Some (Aborted LookupError, s') \<and> out s' = [Lexeme ''a'']"
    and p2: "\<exists>S. Mapping.lookup (m_model ?d) ''.'' = Some S \<and> ''a'' \<in> set S"
    by auto
  from nextLex_lookup_error [of first_index "''.''" ?d ?t 0] tk tf t0
  have p3: "\<exists>s'. main_generate 0 first_index ?t = Some (Aborted LookupError, s') \<and> out s' = []"
    by auto
  from a z ok p1 p2 p3 show ?thesis by blast
qed

subsection \<open>The model during generation\<close>














end
